theory Spec2Isabelle
  imports Complex_Main "HOL-Library.Sublist"
begin

section \<open>Values of the client\<close>

text \<open>
  The client is TypeScript; response bodies are typed \<open>any\<close>. A body is modelled as a JSON
  value, with \<open>JUndefined\<close> for JavaScript's \<open>undefined\<close>. The numbers of a body are
  modelled as exact reals; the numbers the sparkline computes on have a model of their own
  below. An object is an association list whose keys are distinct.
\<close>

datatype json =
    JUndefined
  | JNull
  | JBool bool
  | JNum real
  | JStr string
  | JArr "json list"
  | JObj "(string \<times> json) list"

text \<open>\<open>v == null\<close>: the values on which a property read throws and \<open>??\<close> falls through.\<close>

definition nullish :: "json \<Rightarrow> bool" where
  "nullish v = (v = JUndefined \<or> v = JNull)"

text \<open>JavaScript truthiness, as \<open>||\<close> tests it.\<close>

fun truthy :: "json \<Rightarrow> bool" where
  "truthy JUndefined = False"
| "truthy JNull = False"
| "truthy (JBool b) = b"
| "truthy (JNum x) = (x \<noteq> 0)"
| "truthy (JStr s) = (s \<noteq> [])"
| "truthy (JArr xs) = True"
| "truthy (JObj kvs) = True"

text \<open>
  \<open>v.k\<close> on a value that is not nullish, for the property names the source reads
  (\<open>biomarkers\<close>, \<open>alerts\<close>, \<open>row_count\<close>, \<open>total\<close>, \<open>length\<close>, ...): an object gives the
  field or \<open>undefined\<close>, an array and a string have \<open>length\<close>, a number and a boolean
  have none of them.
\<close>

fun get :: "json \<Rightarrow> string \<Rightarrow> json" where
  "get (JObj kvs) k = (case map_of kvs k of Some v \<Rightarrow> v | None \<Rightarrow> JUndefined)"
| "get (JArr xs) k = (if k = ''length'' then JNum (real (length xs)) else JUndefined)"
| "get (JStr s) k = (if k = ''length'' then JNum (real (length s)) else JUndefined)"
| "get v k = JUndefined"

text \<open>\<open>v?.k\<close>\<close>

definition opt_get :: "json \<Rightarrow> string \<Rightarrow> json" where
  "opt_get v k = (if nullish v then JUndefined else get v k)"

text \<open>\<open>a ?? b\<close>\<close>

definition coalesce :: "json \<Rightarrow> json \<Rightarrow> json" where
  "coalesce a b = (if nullish a then b else a)"

text \<open>\<open>a || b\<close>\<close>

definition or_else :: "json \<Rightarrow> json \<Rightarrow> json" where
  "or_else a b = (if truthy a then a else b)"

text \<open>The outcome of one promise under \<open>Promise.allSettled\<close>, or of one awaited request.\<close>

datatype 'a settled = Fulfilled 'a | Rejected

section \<open>ScoringPanel.tsx: the percentile gauge\<close>

datatype caption = Top5 | Top10 | Top25 | AboveAverage | BelowAverage

record gauge =
  angle :: real
  color :: string
  text_of :: caption

definition RiskGauge :: "real \<Rightarrow> gauge" where
  "RiskGauge percentile =
     \<lparr> angle = (percentile / 100) * 180 - 90,
       color = (if percentile \<ge> 90 then ''#ef4444''
                else if percentile \<ge> 75 then ''#f97316''
                else if percentile \<ge> 50 then ''#eab308''
                else ''#22c55e''),
       text_of = (if percentile \<ge> 95 then Top5
                  else if percentile \<ge> 90 then Top10
                  else if percentile \<ge> 75 then Top25
                  else if percentile \<ge> 50 then AboveAverage
                  else BelowAverage) \<rparr>"

section \<open>DashboardTab.tsx: the sparkline\<close>

text \<open>
  The numbers of the sparkline: a finite value, the two infinities, or \<open>NaN\<close>. The
  component divides, and its series may span the whole range of the doubles, so the
  values that a division by zero and an overflow produce are values of the model.
\<close>

datatype number = Num real | Infinity | NegInfinity | NaN

text \<open>
  The result of an operation whose exact value is \<open>x\<close>: from \<open>2^1024 - 2^970\<close> on, a value
  rounds to an infinity; below, it is kept as it is. The rounding of finite results to
  53 bits and the sign of zero are not modelled: \<open>Num 0\<close> stands for \<open>+0\<close>.
\<close>

definition huge :: real where
  "huge = 2 ^ 1024 - 2 ^ 970"

definition fl :: "real \<Rightarrow> number" where
  "fl x = (if huge \<le> x then Infinity else if x \<le> - huge then NegInfinity else Num x)"

definition inf_of :: "bool \<Rightarrow> number" where
  "inf_of positive = (if positive then Infinity else NegInfinity)"

text \<open>The operators \<open>-x\<close>, \<open>a + b\<close>, \<open>a - b\<close>, \<open>a * b\<close> and \<open>a / b\<close> of JavaScript numbers.\<close>

fun js_neg :: "number \<Rightarrow> number" where
  "js_neg (Num a) = Num (- a)"
| "js_neg Infinity = NegInfinity"
| "js_neg NegInfinity = Infinity"
| "js_neg NaN = NaN"

fun js_add :: "number \<Rightarrow> number \<Rightarrow> number" where
  "js_add NaN b = NaN"
| "js_add a NaN = NaN"
| "js_add (Num a) (Num b) = fl (a + b)"
| "js_add Infinity NegInfinity = NaN"
| "js_add NegInfinity Infinity = NaN"
| "js_add Infinity b = Infinity"
| "js_add a Infinity = Infinity"
| "js_add NegInfinity b = NegInfinity"
| "js_add a NegInfinity = NegInfinity"

definition js_sub :: "number \<Rightarrow> number \<Rightarrow> number" where
  "js_sub a b = js_add a (js_neg b)"

fun js_mul :: "number \<Rightarrow> number \<Rightarrow> number" where
  "js_mul NaN b = NaN"
| "js_mul a NaN = NaN"
| "js_mul (Num a) (Num b) = fl (a * b)"
| "js_mul (Num a) Infinity = (if a = 0 then NaN else inf_of (0 < a))"
| "js_mul (Num a) NegInfinity = (if a = 0 then NaN else inf_of (a < 0))"
| "js_mul Infinity (Num b) = (if b = 0 then NaN else inf_of (0 < b))"
| "js_mul NegInfinity (Num b) = (if b = 0 then NaN else inf_of (b < 0))"
| "js_mul Infinity Infinity = Infinity"
| "js_mul NegInfinity NegInfinity = Infinity"
| "js_mul Infinity NegInfinity = NegInfinity"
| "js_mul NegInfinity Infinity = NegInfinity"

text \<open>
  A division by zero does not throw: it gives \<open>NaN\<close> for \<open>0 / 0\<close> and an infinity
  otherwise.
\<close>

fun js_div :: "number \<Rightarrow> number \<Rightarrow> number" where
  "js_div NaN b = NaN"
| "js_div a NaN = NaN"
| "js_div (Num a) (Num b) =
     (if b = 0 then (if a = 0 then NaN else inf_of (0 < a)) else fl (a / b))"
| "js_div (Num a) Infinity = Num 0"
| "js_div (Num a) NegInfinity = Num 0"
| "js_div Infinity (Num b) = inf_of (0 \<le> b)"
| "js_div NegInfinity (Num b) = inf_of (b < 0)"
| "js_div Infinity Infinity = NaN"
| "js_div Infinity NegInfinity = NaN"
| "js_div NegInfinity Infinity = NaN"
| "js_div NegInfinity NegInfinity = NaN"

text \<open>\<open>a <= b\<close>: false whenever an operand is \<open>NaN\<close>.\<close>

fun js_le :: "number \<Rightarrow> number \<Rightarrow> bool" where
  "js_le NaN b = False"
| "js_le a NaN = False"
| "js_le (Num a) (Num b) = (a \<le> b)"
| "js_le NegInfinity b = True"
| "js_le a Infinity = True"
| "js_le Infinity b = False"
| "js_le a NegInfinity = False"

text \<open>
  \<open>Math.min(...values)\<close> and \<open>Math.max(...values)\<close>: \<open>NaN\<close> if an argument is \<open>NaN\<close>,
  \<open>Infinity\<close> and \<open>-Infinity\<close> with no argument.
\<close>

definition Math_min :: "number list \<Rightarrow> number" where
  "Math_min vs =
     (if NaN \<in> set vs then NaN else fold (\<lambda>v m. if js_le v m then v else m) vs Infinity)"

definition Math_max :: "number list \<Rightarrow> number" where
  "Math_max vs =
     (if NaN \<in> set vs then NaN else fold (\<lambda>v m. if js_le m v then v else m) vs NegInfinity)"

text \<open>
  What the component renders: the \<open>no data\<close> placeholder, or the chart with the polyline's
  points (the source joins them into the \<open>points\<close> attribute), the end marker \<open>(lx, ly)\<close>,
  the stroke colour and whether the pulsing ring is drawn.
\<close>

datatype sparkline =
    NoData
  | Chart (pts: "(number \<times> number) list") (marker: "number \<times> number") (stroke: string)
      (pulse: bool)

definition W :: number where "W = Num 80"
definition H :: number where "H = Num 24"
definition pad :: number where "pad = Num 2"

text \<open>\<open>max - min || 1\<close>: zero and \<open>NaN\<close> are falsy.\<close>

definition range_of :: "number \<Rightarrow> number \<Rightarrow> number" where
  "range_of mn mx =
     (let d = js_sub mx mn in if d = Num 0 \<or> d = NaN then Num 1 else d)"

text \<open>The point of the value \<open>v\<close> at index \<open>i\<close> of a series of length \<open>n\<close>.\<close>

definition point :: "nat \<Rightarrow> number \<Rightarrow> number \<Rightarrow> number \<times> nat \<Rightarrow> number \<times> number" where
  "point n mn rng = (\<lambda>(v, i).
     (js_add pad
        (js_mul (js_div (Num (real i)) (js_sub (Num (real n)) (Num 1)))
           (js_sub W (js_mul pad (Num 2)))),
      js_add pad
        (js_mul (js_sub (Num 1) (js_div (js_sub v mn) rng))
           (js_sub H (js_mul pad (Num 2))))))"

definition Sparkline :: "number list \<Rightarrow> bool \<Rightarrow> sparkline" where
  "Sparkline values isAbnormal =
     (if length values < 2 then NoData
      else
        (let mn = Math_min values;
             mx = Math_max values;
             rng = range_of mn mx;
             n = length values;
             last_v = values ! (n - 1);
             lx = js_add pad (js_sub W (js_mul pad (Num 2)));
             ly = js_add pad
                    (js_mul (js_sub (Num 1) (js_div (js_sub last_v mn) rng))
                       (js_sub H (js_mul pad (Num 2))))
         in Chart (map (point n mn rng) (zip values [0..<n])) (lx, ly)
              (if isAbnormal then ''#f87171'' else ''#34d399'') isAbnormal))"

text \<open>
  A point lies in the box of 80 by 24 pixels inset by the 2 pixels of padding: both
  coordinates are finite, \<open>x\<close> within 2 and 78 and \<open>y\<close> within 2 and 22.
\<close>

fun in_box :: "number \<times> number \<Rightarrow> bool" where
  "in_box (Num x, Num y) = (2 \<le> x \<and> x \<le> 78 \<and> 2 \<le> y \<and> y \<le> 22)"
| "in_box p = False"

section \<open>page.tsx: the telemetry feed of the header\<close>

record feed_entry =
  label :: string
  ms :: json
  rows :: json

text \<open>\<open>s.replace(pat, '')\<close> with a string pattern: the first occurrence is removed.\<close>

fun replace_first :: "string \<Rightarrow> string \<Rightarrow> string" where
  "replace_first pat [] = []"
| "replace_first pat (c # cs) =
     (if prefix pat (c # cs) then drop (length pat) (c # cs)
      else c # replace_first pat cs)"

text \<open>\<open>s.includes(pat)\<close>\<close>

fun includes_str :: "string \<Rightarrow> string \<Rightarrow> bool" where
  "includes_str pat [] = (pat = [])"
| "includes_str pat (c # cs) = (prefix pat (c # cs) \<or> includes_str pat cs)"

text \<open>
  \<open>(config.url || '').replace(API, '').split('?')[0]\<close>, with \<open>API\<close> (read from the
  environment, localhost by default) as a parameter and a missing url as \<open>None\<close>.
\<close>

definition endpoint_of :: "string \<Rightarrow> string option \<Rightarrow> string" where
  "endpoint_of API url =
     takeWhile (\<lambda>c. c \<noteq> CHR ''?'')
       (replace_first API (case url of None \<Rightarrow> [] | Some u \<Rightarrow> u))"

text \<open>\<open>url.startsWith('/api/') && !url.includes('health')\<close>\<close>

definition tracked :: "string \<Rightarrow> bool" where
  "tracked url = (prefix ''/api/'' url \<and> \<not> includes_str ''health'' url)"

text \<open>The request interceptor's update of \<open>esqlFeed\<close>.\<close>

definition on_request :: "string \<Rightarrow> string option \<Rightarrow> feed_entry list \<Rightarrow> feed_entry list" where
  "on_request API url prev =
     (let u = endpoint_of API url
      in if tracked u
         then take 6 (\<lparr> label = u, ms = JNum 0, rows = JNum 0 \<rparr> # prev)
         else prev)"

text \<open>
  \<open>data?.row_count ?? data?.total ?? data?.biomarkers?.length ?? data?.alerts?.length ?? 0\<close>
\<close>

definition rows_of :: "json \<Rightarrow> json" where
  "rows_of data =
     coalesce (opt_get data ''row_count'')
       (coalesce (opt_get data ''total'')
          (coalesce (opt_get (opt_get data ''biomarkers'') ''length'')
             (coalesce (opt_get (opt_get data ''alerts'') ''length'') (JNum 0))))"

text \<open>\<open>data?.esql_ms ?? data?.ms ?? data?.execution_ms ?? 0\<close>\<close>

definition ms_of :: "json \<Rightarrow> json" where
  "ms_of data =
     coalesce (opt_get data ''esql_ms'')
       (coalesce (opt_get data ''ms'')
          (coalesce (opt_get data ''execution_ms'') (JNum 0)))"

text \<open>The response interceptor's update of \<open>esqlFeed\<close>, for a response with body \<open>data\<close>.\<close>

definition on_response ::
  "string \<Rightarrow> string option \<Rightarrow> json \<Rightarrow> feed_entry list \<Rightarrow> feed_entry list" where
  "on_response API url data prev =
     (let u = endpoint_of API url
      in if tracked u
         then (case prev of
                 [] \<Rightarrow> []
               | e # es \<Rightarrow>
                   if label e = u
                   then \<lparr> label = u, ms = ms_of data, rows = rows_of data \<rparr> # es
                   else e # es)
         else prev)"

datatype http_event = Request "string option" | Response "string option" json

fun feed_step :: "string \<Rightarrow> http_event \<Rightarrow> feed_entry list \<Rightarrow> feed_entry list" where
  "feed_step API (Request url) prev = on_request API url prev"
| "feed_step API (Response url data) prev = on_response API url data prev"

text \<open>The feed after a sequence of intercepted requests and responses; it starts empty.\<close>

definition esqlFeed_after :: "string \<Rightarrow> http_event list \<Rightarrow> feed_entry list" where
  "esqlFeed_after API evs = fold (feed_step API) evs []"

section \<open>page.tsx: the health probe\<close>

record SysStatus =
  es_connected :: bool
  doc_count :: json
  mcp_enabled :: json
  latency_ms :: int
  last_checked :: string

text \<open>The updater of the \<open>catch\<close> branch: \<open>s => s ? { ...s, es_connected: false } : null\<close>.\<close>

definition probe_failed :: "SysStatus option \<Rightarrow> SysStatus option" where
  "probe_failed s = (case s of Some v \<Rightarrow> Some (v\<lparr> es_connected := False \<rparr>) | None \<Rightarrow> None)"

text \<open>
  \<open>checkStatus\<close>, given the two readings of \<open>Date.now()\<close>, the time string and the outcome
  of the request. A rejected request lands in \<open>catch\<close>, and so does the \<open>TypeError\<close> of
  reading \<open>data.elasticsearch\<close> on a null body.
\<close>

definition checkStatus ::
  "int \<Rightarrow> int \<Rightarrow> string \<Rightarrow> json settled \<Rightarrow> SysStatus option \<Rightarrow> SysStatus option" where
  "checkStatus t0 t1 now reply s =
     (case reply of
        Rejected \<Rightarrow> probe_failed s
      | Fulfilled data \<Rightarrow>
          if nullish data then probe_failed s
          else Some \<lparr> es_connected = (get data ''elasticsearch'' = JStr ''connected''),
                      doc_count = coalesce (get data ''lab_results_count'') (JNum 0),
                      mcp_enabled = coalesce (get data ''mcp_enabled'') (JBool False),
                      latency_ms = t1 - t0,
                      last_checked = now \<rparr>)"

text \<open>A probe fails when its request is rejected or its handling throws.\<close>

fun failed_probe :: "json settled \<Rightarrow> bool" where
  "failed_probe Rejected = True"
| "failed_probe (Fulfilled data) = nullish data"

section \<open>page.tsx: the roster\<close>

text \<open>
  A row of \<open>data.patients\<close> at the types of \<open>interface Patient\<close>, each field but the id
  possibly absent, and the row after the defaults \<open>?? 0\<close> and \<open>String(.. || '').slice(0, 10)\<close>.
\<close>

record raw_patient =
  r_patient_id :: string
  r_total_tests :: "real option"
  r_abnormal :: "real option"
  r_critical :: "real option"
  r_last_test :: "string option"
  r_first_test :: "string option"

record Patient =
  patient_id :: string
  total_tests :: real
  abnormal :: real
  critical :: real
  last_test :: string
  first_test :: string

definition to_patient :: "raw_patient \<Rightarrow> Patient" where
  "to_patient r =
     \<lparr> patient_id = r_patient_id r,
       total_tests = (case r_total_tests r of None \<Rightarrow> 0 | Some x \<Rightarrow> x),
       abnormal = (case r_abnormal r of None \<Rightarrow> 0 | Some x \<Rightarrow> x),
       critical = (case r_critical r of None \<Rightarrow> 0 | Some x \<Rightarrow> x),
       last_test = take 10 (case r_last_test r of None \<Rightarrow> [] | Some d \<Rightarrow> d),
       first_test = take 10 (case r_first_test r of None \<Rightarrow> [] | Some d \<Rightarrow> d) \<rparr>"

text \<open>
  The banner text \<open>Patient ${patientId} has ${current.critical} critical lab panels ...\<close>,
  kept as the two values the template prints.
\<close>

datatype banner = CriticalPanels string real

record app =
  patientId :: string
  patients :: "Patient list"
  patientsLoading :: bool
  criticalAlert :: "banner option"

text \<open>
  \<open>loadPatients\<close>. \<open>pid\<close> is the \<open>patientId\<close> the callback closed over; the body of the
  reply is \<open>data.patients\<close> (\<open>None\<close> when absent, which \<open>|| []\<close> replaces). A rejected request
  is swallowed by \<open>catch\<close>; \<open>finally\<close> clears \<open>patientsLoading\<close> either way.
\<close>

definition loadPatients :: "string \<Rightarrow> raw_patient list option settled \<Rightarrow> app \<Rightarrow> app" where
  "loadPatients pid reply st =
     (case reply of
        Rejected \<Rightarrow> st\<lparr> patientsLoading := False \<rparr>
      | Fulfilled body \<Rightarrow>
          (let rs = map to_patient (case body of None \<Rightarrow> [] | Some rs \<Rightarrow> rs);
               st1 = st\<lparr> patients := rs \<rparr>;
               st2 = (if rs \<noteq> [] \<and> find (\<lambda>p. patient_id p = pid) rs = None
                      then st1\<lparr> patientId := patient_id (hd rs) \<rparr> else st1);
               current = find (\<lambda>p. patient_id p = pid) rs;
               st3 = st2\<lparr> criticalAlert :=
                      (case current of
                         Some c \<Rightarrow> if critical c > 0 then Some (CriticalPanels pid (critical c))
                                   else None
                       | None \<Rightarrow> None) \<rparr>
           in st3\<lparr> patientsLoading := False \<rparr>))"

section \<open>page.tsx: the 20-second cadence\<close>

text \<open>
  The requests of the probe and of the roster that are in flight. The interval callback is
  \<open>() => { checkStatus(); loadPatients(); }\<close>: each call issues its request before its
  first \<open>await\<close>. A request leaves when it settles; a settlement with nothing in flight is
  not an event of the program (\<open>None\<close>).
\<close>

record polling =
  status_in_flight :: nat
  roster_in_flight :: nat

datatype fast_event = Tick | StatusSettled | RosterSettled

fun fast_step :: "fast_event \<Rightarrow> polling \<Rightarrow> polling option" where
  "fast_step Tick s =
     Some (s\<lparr> status_in_flight := status_in_flight s + 1,
              roster_in_flight := roster_in_flight s + 1 \<rparr>)"
| "fast_step StatusSettled s =
     (if status_in_flight s = 0 then None
      else Some (s\<lparr> status_in_flight := status_in_flight s - 1 \<rparr>))"
| "fast_step RosterSettled s =
     (if roster_in_flight s = 0 then None
      else Some (s\<lparr> roster_in_flight := roster_in_flight s - 1 \<rparr>))"

fun fast_run :: "fast_event list \<Rightarrow> polling \<Rightarrow> polling option" where
  "fast_run [] s = Some s"
| "fast_run (e # es) s = (case fast_step e s of None \<Rightarrow> None | Some s' \<Rightarrow> fast_run es s')"

text \<open>On mount the effect calls \<open>checkStatus(); loadPatients();\<close> once and sets the interval.\<close>

definition mounted :: polling where
  "mounted = \<lparr> status_in_flight = 1, roster_in_flight = 1 \<rparr>"

section \<open>DashboardTab.tsx: the refresh cycle\<close>

record QueryLog =
  log_query :: string
  log_rows :: json
  log_ms :: int
  log_time :: string

record dashboard =
  summary :: json
  biomarkers :: json
  risk :: json
  alerts :: json
  queryLog :: "QueryLog list"
  loading :: bool
  lastUpdate :: string
  countdown :: int

text \<open>The updater of \<open>logQuery\<close>, with the time string it reads as a parameter.\<close>

definition logQuery :: "string \<Rightarrow> json \<Rightarrow> int \<Rightarrow> string \<Rightarrow> QueryLog list \<Rightarrow> QueryLog list" where
  "logQuery q r m now prev =
     take 10 (\<lparr> log_query = q, log_rows = r, log_ms = m, log_time = now \<rparr> # prev)"



text \<open>
  The clock as \<open>load\<close> reads it: \<open>t0\<close> at the start, \<open>Date.now()\<close> and the time string at
  each \<open>logQuery\<close>, and the time string of \<open>setLastUpdate\<close>.
\<close>

record clock =
  t0 :: int
  t_summary :: int
  t_biomarkers :: int
  t_risk :: int
  t_alerts :: int
  s_summary :: string
  s_biomarkers :: string
  s_risk :: string
  s_alerts :: string
  s_done :: string


















section \<open>DashboardTab.tsx: the 30-second cadence\<close>

text \<open>
  The countdown and the number of \<open>load\<close> calls that have not settled. Every second the
  interval runs \<open>setCountdown(c => { if (c <= 1) { load(); return 30; } return c - 1; })\<close>.
  A \<open>load\<close> that returns sets the countdown to 30; one that throws leaves it.
\<close>

record refresher =
  seconds_left :: int
  loads_in_flight :: nat

datatype slow_event = Second | LoadReturned | LoadThrew

fun slow_step :: "slow_event \<Rightarrow> refresher \<Rightarrow> refresher option" where
  "slow_step Second s =
     Some (if seconds_left s \<le> 1
           then s\<lparr> seconds_left := 30, loads_in_flight := loads_in_flight s + 1 \<rparr>
           else s\<lparr> seconds_left := seconds_left s - 1 \<rparr>)"
| "slow_step LoadReturned s =
     (if loads_in_flight s = 0 then None
      else Some (s\<lparr> seconds_left := 30, loads_in_flight := loads_in_flight s - 1 \<rparr>))"
| "slow_step LoadThrew s =
     (if loads_in_flight s = 0 then None
      else Some (s\<lparr> loads_in_flight := loads_in_flight s - 1 \<rparr>))"

fun slow_run :: "slow_event list \<Rightarrow> refresher \<Rightarrow> refresher option" where
  "slow_run [] s = Some s"
| "slow_run (e # es) s = (case slow_step e s of None \<Rightarrow> None | Some s' \<Rightarrow> slow_run es s')"

text \<open>On mount the effect calls \<open>load()\<close> once; the countdown starts at 30.\<close>

definition dashboard_mounted :: refresher where
  "dashboard_mounted = \<lparr> seconds_left = 30, loads_in_flight = 1 \<rparr>"

section \<open>EsqlTab.tsx: the console\<close>

text \<open>The text of the query is a JavaScript string: the list of its UTF-16 code units.\<close>

type_synonym ustring = "nat list"

record console =
  query :: ustring
  result :: json
  running :: bool
  error :: json
  rawOpen :: bool

text \<open>
  \<open>query.trim()\<close> strips the white space and the line terminators of ECMAScript from both
  ends: tab, line feed, vertical tab, form feed, carriage return, space, no-break space,
  U+1680, U+2000 to U+200A, U+2028, U+2029, U+202F, U+205F, U+3000 and U+FEFF.
\<close>

definition white :: "nat \<Rightarrow> bool" where
  "white c =
     (c \<in> set [0x09, 0x0A, 0x0B, 0x0C, 0x0D, 0x20, 0xA0, 0x1680, 0x2028, 0x2029, 0x202F,
                 0x205F, 0x3000, 0xFEFF]
      \<or> (0x2000 \<le> c \<and> c \<le> 0x200A))"

definition trim :: "ustring \<Rightarrow> ustring" where
  "trim s = rev (dropWhile white (rev (dropWhile white s)))"

text \<open>
  \<open>run\<close> up to its \<open>await\<close>: the state it leaves and the request \<open>{ query, limit: 100 }\<close>
  it posts, if any. \<open>running\<close> is the flag of the render the handler belongs to.
\<close>

definition run :: "console \<Rightarrow> console \<times> (ustring \<times> nat) option" where
  "run s =
     (if trim (query s) = [] \<or> running s then (s, None)
      else (s\<lparr> running := True, error := JNull, result := JNull, rawOpen := False \<rparr>,
            Some (query s, 100)))"

text \<open>
  The reply to the post: the response body, or the error object that axios rejects with
  (\<open>e.response?.data?.detail || e.message || 'Query failed'\<close> is what the banner shows).
  \<open>run\<close> after its \<open>await\<close>; \<open>type_error\<close> is the error thrown by reading \<open>data.status\<close> on a
  null body, which lands in the same \<open>catch\<close>.
\<close>

datatype reply = Resolved json | Failed json

definition message_of :: "json \<Rightarrow> json" where
  "message_of e =
     or_else (opt_get (opt_get (get e ''response'') ''data'') ''detail'')
       (or_else (get e ''message'') (JStr ''Query failed''))"

definition settle :: "json \<Rightarrow> reply \<Rightarrow> console \<Rightarrow> console" where
  "settle type_error r s =
     (case r of
        Resolved data \<Rightarrow>
          if nullish data then s\<lparr> error := message_of type_error, running := False \<rparr>
          else if get data ''status'' = JStr ''error''
          then s\<lparr> error := get data ''error'', running := False \<rparr>
          else s\<lparr> result := data, running := False \<rparr>
      | Failed e \<Rightarrow> s\<lparr> error := message_of e, running := False \<rparr>)"

text \<open>\<open>pick\<close>, with the example's text as a parameter (the chosen tab is not modelled).\<close>

definition pick :: "ustring \<Rightarrow> console \<Rightarrow> console" where
  "pick q s = s\<lparr> query := q, result := JNull, error := JNull, rawOpen := False \<rparr>"

text \<open>
  A session of the console: its state, the sequence numbers of the posts that have not
  settled, and the number of posts so far. \<open>Settle i r\<close> is the reply to the \<open>i\<close>-th pending
  post; with no such post it is not an event of the program.
\<close>

record session =
  ui :: console
  pending :: "nat list"
  posted :: nat

datatype console_event = Submit | Settle nat reply | Edit ustring | Pick ustring

definition submit :: "session \<Rightarrow> session" where
  "submit s =
     (case run (ui s) of
        (u, None) \<Rightarrow> s\<lparr> ui := u \<rparr>
      | (u, Some req) \<Rightarrow>
          s\<lparr> ui := u, pending := pending s @ [Suc (posted s)], posted := Suc (posted s) \<rparr>)"

fun console_step :: "json \<Rightarrow> console_event \<Rightarrow> session \<Rightarrow> session option" where
  "console_step te Submit s = Some (submit s)"
| "console_step te (Settle i r) s =
     (if i < length (pending s)
      then Some (s\<lparr> ui := settle te r (ui s),
                     pending := take i (pending s) @ drop (Suc i) (pending s) \<rparr>)
      else None)"
| "console_step te (Edit q) s = Some (s\<lparr> ui := (ui s)\<lparr> query := q \<rparr> \<rparr>)"
| "console_step te (Pick q) s = Some (s\<lparr> ui := pick q (ui s) \<rparr>)"

fun console_run :: "json \<Rightarrow> console_event list \<Rightarrow> session \<Rightarrow> session option" where
  "console_run te [] s = Some s"
| "console_run te (e # es) s =
     (case console_step te e s of None \<Rightarrow> None | Some s' \<Rightarrow> console_run te es s')"

text \<open>The console as mounted, with the first example as its query.\<close>

definition opened :: "ustring \<Rightarrow> session" where
  "opened q =
     \<lparr> ui = \<lparr> query = q, result = JNull, running = False, error = JNull, rawOpen = False \<rparr>,
       pending = [], posted = 0 \<rparr>"

text \<open>
  The invariant of a session: while \<open>running\<close> the one pending post is the latest, and
  otherwise none is pending.
\<close>

definition console_inv :: "session \<Rightarrow> bool" where
  "console_inv s = (pending s = (if running (ui s) then [posted s] else []))"

section \<open>Properties of the gauge and the sparkline\<close>

lemma huge_big: "100 < huge"
  by (simp add: huge_def)

lemma fl_exact: "- huge < x \<Longrightarrow> x < huge \<Longrightarrow> fl x = Num x"
  by (simp add: fl_def)

lemma fl_small: "- 100 \<le> x \<Longrightarrow> x \<le> 100 \<Longrightarrow> fl x = Num x"
  using huge_big by (simp add: fl_def)

lemma fold_min_Num:
  "fold (\<lambda>v m. if js_le v m then v else m) (map Num xs) (Num a) = Num (fold min xs a)"
  by (induction xs arbitrary: a) (simp_all add: min_def)

lemma fold_max_Num:
  "fold (\<lambda>v m. if js_le m v then v else m) (map Num xs) (Num a) = Num (fold max xs a)"
  by (induction xs arbitrary: a) (simp_all add: max_def)

lemma Math_min_Min: "xs \<noteq> [] \<Longrightarrow> Math_min (map Num xs) = Num (Min (set xs))"
proof -
  assume "xs \<noteq> []"
  then obtain x ys where xs: "xs = x # ys" by (cases xs) auto
  have "NaN \<notin> set (map Num xs)" by auto
  then have "Math_min (map Num xs) = Num (fold min ys x)"
    by (simp add: Math_min_def xs fold_min_Num del: set_map)
  also have "fold min ys x = Min (set xs)"
    unfolding xs by (simp only: Min.set_eq_fold)
  finally show ?thesis .
qed

lemma Math_max_Max: "xs \<noteq> [] \<Longrightarrow> Math_max (map Num xs) = Num (Max (set xs))"
proof -
  assume "xs \<noteq> []"
  then obtain x ys where xs: "xs = x # ys" by (cases xs) auto
  have "NaN \<notin> set (map Num xs)" by auto
  then have "Math_max (map Num xs) = Num (fold max ys x)"
    by (simp add: Math_max_def xs fold_max_Num del: set_map)
  also have "fold max ys x = Max (set xs)"
    unfolding xs by (simp only: Max.set_eq_fold)
  finally show ?thesis .
qed

lemma range_of_Num:
  assumes "mn \<le> mx" "mx - mn < huge"
  shows "range_of (Num mn) (Num mx) = Num (if mx = mn then 1 else mx - mn)"
proof -
  have "js_sub (Num mx) (Num mn) = Num (mx - mn)"
    using assms huge_big by (simp add: js_sub_def fl_def)
  then show ?thesis by (simp add: range_of_def)
qed

lemma inner_width: "js_sub W (js_mul pad (Num 2)) = Num 76"
  by (simp add: W_def pad_def js_sub_def fl_small)

lemma inner_height: "js_sub H (js_mul pad (Num 2)) = Num 20"
  by (simp add: H_def pad_def js_sub_def fl_small)

lemma pad_plus: "- 100 \<le> z \<Longrightarrow> z \<le> 98 \<Longrightarrow> js_add pad (Num z) = Num (2 + z)"
  by (simp add: pad_def fl_small)

lemma x_in_box:
  assumes "i < n" "2 \<le> n"
  shows "\<exists>x. js_add pad (js_mul (js_div (Num (real i)) (js_sub (Num (real n)) (Num 1)))
                 (js_sub W (js_mul pad (Num 2)))) = Num x \<and> 2 \<le> x \<and> x \<le> 78"
proof -
  define q where "q = real i / (real n - 1)"
  have pos: "0 < real n - 1" and le: "real i \<le> real n - 1"
    using assms by linarith+
  then have q: "0 \<le> q" "q \<le> 1"
    by (simp_all add: q_def divide_le_eq)
  then have flq: "fl q = Num q"
    by (intro fl_small) auto
  have sub: "js_sub (Num (real n)) (Num 1) = fl (real n - 1)"
    by (simp add: js_sub_def)
  show ?thesis
  proof (cases "huge \<le> real n - 1")
    case True
    then have "js_div (Num (real i)) (js_sub (Num (real n)) (Num 1)) = Num 0"
      by (simp add: sub fl_def)
    then have "js_add pad (js_mul (js_div (Num (real i)) (js_sub (Num (real n)) (Num 1)))
                 (js_sub W (js_mul pad (Num 2)))) = js_add pad (js_mul (Num 0) (Num 76))"
      by (simp only: inner_width)
    then show ?thesis
      by (simp add: pad_plus fl_small)
  next
    case False
    then have "fl (real n - 1) = Num (real n - 1)"
      using pos huge_big by (simp add: fl_def)
    then have "js_div (Num (real i)) (js_sub (Num (real n)) (Num 1)) = Num q"
      using pos flq by (simp add: sub q_def)
    then have e: "js_add pad (js_mul (js_div (Num (real i)) (js_sub (Num (real n)) (Num 1)))
                 (js_sub W (js_mul pad (Num 2)))) = js_add pad (js_mul (Num q) (Num 76))"
      by (simp only: inner_width)
    have "0 \<le> q * 76" "q * 76 \<le> 76" using q by simp_all
    then show ?thesis
      unfolding e by (simp add: pad_plus fl_small)
  qed
qed

lemma y_in_box:
  assumes "mn \<le> v" "v \<le> mx" "mx - mn < huge"
  shows "\<exists>y. js_add pad
           (js_mul (js_sub (Num 1) (js_div (js_sub (Num v) (Num mn)) (range_of (Num mn) (Num mx))))
              (js_sub H (js_mul pad (Num 2)))) = Num y \<and> 2 \<le> y \<and> y \<le> 22"
proof -
  define r where "r = (if mx = mn then 1 else mx - mn)"
  define t where "t = (v - mn) / r"
  have r: "0 < r" "v - mn \<le> r" using assms by (auto simp: r_def)
  then have t: "0 \<le> t" "t \<le> 1"
    using assms by (simp_all add: t_def divide_le_eq)
  have rng: "range_of (Num mn) (Num mx) = Num r"
    using assms unfolding r_def by (intro range_of_Num) auto
  have "0 \<le> v - mn" "v - mn < huge" using assms by auto
  then have d: "js_sub (Num v) (Num mn) = Num (v - mn)"
    using huge_big by (simp add: js_sub_def fl_def)
  have "fl t = Num t"
    using t by (intro fl_small) auto
  then have q: "js_div (Num (v - mn)) (Num r) = Num t"
    using r by (simp add: t_def)
  have s: "js_sub (Num 1) (Num t) = Num (1 - t)"
    using t by (simp add: js_sub_def fl_small)
  have e: "js_add pad
           (js_mul (js_sub (Num 1) (js_div (js_sub (Num v) (Num mn)) (range_of (Num mn) (Num mx))))
              (js_sub H (js_mul pad (Num 2)))) = js_add pad (js_mul (Num (1 - t)) (Num 20))"
    by (simp only: rng d q s inner_height)
  have "0 \<le> (1 - t) * 20" "(1 - t) * 20 \<le> 20" using t by simp_all
  then show ?thesis
    unfolding e by (simp add: pad_plus fl_small)
qed

text \<open>
  C7. For every percentile the needle angle is \<open>p / 100 * 180 - 90\<close> and the colour is
  the critical band from 90, the high band from 75, the elevated band from 50 and the normal
  band below; 95 gives the critical band and 81 degrees, 50 gives 0 degrees.
\<close>

theorem RiskGauge_angle_and_band:
  "angle (RiskGauge p) = p / 100 * 180 - 90
   \<and> color (RiskGauge p) =
       (if p \<ge> 90 then ''#ef4444'' else if p \<ge> 75 then ''#f97316''
        else if p \<ge> 50 then ''#eab308'' else ''#22c55e'')
   \<and> angle (RiskGauge 95) = 81 \<and> color (RiskGauge 95) = ''#ef4444''
   \<and> angle (RiskGauge 50) = 0 \<and> color (RiskGauge 50) = ''#eab308''"
  by (simp add: RiskGauge_def)

theorem RiskGauge_angle_and_band_witness:
  "angle (RiskGauge 80) = 54 \<and> color (RiskGauge 80) = ''#f97316''
   \<and> angle (RiskGauge 0) = - 90 \<and> color (RiskGauge 0) = ''#22c55e''
   \<and> angle (RiskGauge 100) = 90 \<and> color (RiskGauge 100) = ''#ef4444''"
  using RiskGauge_angle_and_band [of 80] RiskGauge_angle_and_band [of 0]
    RiskGauge_angle_and_band [of 100]
  by simp

text \<open>
  C8. A series of fewer than two values (empty or a single value) renders the \<open>no data\<close>
  placeholder; the component computes nothing else on it.
\<close>

theorem Sparkline_short_series:
  "length values < 2 \<Longrightarrow> Sparkline values isAbnormal = NoData"
  by (simp add: Sparkline_def)

theorem Sparkline_short_series_witness:
  "Sparkline [] False = NoData \<and> Sparkline [Num 7] True = NoData"
  using Sparkline_short_series [of "[]" False] Sparkline_short_series [of "[Num 7]" True]
  by simp

text \<open>
  The series of the two values \<open>2^1023\<close> and \<open>-2^1023\<close>: the difference of the maximum and
  the minimum overflows to \<open>Infinity\<close>, the first value's quotient is \<open>Infinity / Infinity\<close>,
  and the \<open>y\<close> of the first point is \<open>NaN\<close>, which is not in the box.
\<close>

theorem Sparkline_overflow_counterexample:
  "pts (Sparkline [Num (2 ^ 1023), Num (- (2 ^ 1023))] False)
     = [(Num 2, NaN), (Num 78, Num 22)]
   \<and> \<not> in_box (Num 2, NaN)"
proof -
  define b :: real where "b = 2 ^ 1023"
  have pos: "0 < b" by (simp add: b_def)
  have "2 * b = 2 ^ 1024" by (simp add: b_def)
  then have over: "fl (2 * b) = Infinity"
    by (simp add: fl_def huge_def)
  have "b < huge" "- huge < - b"
    by (simp_all add: b_def huge_def)
  then have fin: "fl b = Num b" "fl (- b) = Num (- b)"
    using pos by (simp_all add: fl_def)
  have "pts (Sparkline [Num b, Num (- b)] False) = [(Num 2, NaN), (Num 78, Num 22)]"
    using pos
    by (simp add: Sparkline_def Math_min_def Math_max_def range_of_def js_sub_def point_def
        pad_def W_def H_def upt_rec fl_small over Let_def)
  then show ?thesis by (simp add: b_def)
qed

text \<open>
  C10, as the code has it. For a series of at least two finite values whose maximum and
  minimum differ by less than the overflow threshold, a constant series included, the
  range the component divides by is a positive finite number (1 when the maximum equals
  the minimum), so it never divides by zero; there is one point for each value, and every
  point and the end marker are finite and lie in the box of 80 by 24 pixels inset by 2
  pixels.
\<close>

theorem Sparkline_points_in_box:
  assumes "2 \<le> length xs" "Max (set xs) - Min (set xs) < huge"
  shows "\<exists>r ps m c.
           range_of (Math_min (map Num xs)) (Math_max (map Num xs)) = Num r \<and> 0 < r
         \<and> (Max (set xs) = Min (set xs) \<longrightarrow> r = 1)
         \<and> Sparkline (map Num xs) isAbnormal = Chart ps m c isAbnormal
         \<and> length ps = length xs
         \<and> (\<forall>p \<in> set ps. in_box p) \<and> in_box m"
proof -
  define mn where "mn = Min (set xs)"
  define mx where "mx = Max (set xs)"
  define n where "n = length xs"
  define vs where "vs = map Num xs"
  from assms(1) have ne: "xs \<noteq> []" by auto
  have mn: "Math_min vs = Num mn" and mx: "Math_max vs = Num mx"
    unfolding vs_def mn_def mx_def using ne by (rule Math_min_Min, rule Math_max_Max)
  have bounds: "mn \<le> x \<and> x \<le> mx" if "x \<in> set xs" for x
    using that by (simp add: mn_def mx_def)
  have "hd xs \<in> set xs" using ne by simp
  from bounds [OF this] have le: "mn \<le> mx" by simp
  have spread: "mx - mn < huge" using assms(2) by (simp add: mn_def mx_def)
  have rng: "range_of (Num mn) (Num mx) = Num (if mx = mn then 1 else mx - mn)"
    using le spread by (rule range_of_Num)
  have len: "length vs = n" "\<not> n < 2"
    using assms(1) by (simp_all add: vs_def n_def)
  have nth: "vs ! (n - 1) = Num (xs ! (n - 1))" "xs ! (n - 1) \<in> set xs"
    using assms(1) by (simp_all add: vs_def n_def)
  have spark: "Sparkline vs isAbnormal =
      Chart (map (point n (Num mn) (range_of (Num mn) (Num mx))) (zip vs [0..<n]))
        (js_add pad (js_sub W (js_mul pad (Num 2))),
         js_add pad
           (js_mul (js_sub (Num 1)
              (js_div (js_sub (Num (xs ! (n - 1))) (Num mn)) (range_of (Num mn) (Num mx))))
              (js_sub H (js_mul pad (Num 2)))))
        (if isAbnormal then ''#f87171'' else ''#34d399'') isAbnormal"
    unfolding Sparkline_def Let_def mn mx len nth(1) using len(2) by simp
  have pts_ok: "in_box p"
    if "p \<in> set (map (point n (Num mn) (range_of (Num mn) (Num mx))) (zip vs [0..<n]))" for p
  proof -
    from that obtain v i where vi: "(v, i) \<in> set (zip vs [0..<n])"
      and p: "p = point n (Num mn) (range_of (Num mn) (Num mx)) (v, i)"
      by auto
    from vi have "v \<in> set vs" "i < n"
      by (auto dest: set_zip_leftD set_zip_rightD)
    then obtain x where x: "v = Num x" "x \<in> set xs"
      by (auto simp: vs_def)
    from bounds [OF x(2)] spread obtain b where
      b: "js_add pad
           (js_mul (js_sub (Num 1) (js_div (js_sub (Num x) (Num mn)) (range_of (Num mn) (Num mx))))
              (js_sub H (js_mul pad (Num 2)))) = Num b" "2 \<le> b" "b \<le> 22"
      using y_in_box [of mn x mx] by auto
    from \<open>i < n\<close> assms(1) obtain a where
      a: "js_add pad (js_mul (js_div (Num (real i)) (js_sub (Num (real n)) (Num 1)))
                 (js_sub W (js_mul pad (Num 2)))) = Num a" "2 \<le> a" "a \<le> 78"
      using x_in_box [of i n] by (auto simp: n_def)
    show ?thesis
      by (simp add: p point_def x(1) a b)
  qed
  from bounds [OF nth(2)] spread obtain b where
    b: "js_add pad
         (js_mul (js_sub (Num 1)
            (js_div (js_sub (Num (xs ! (n - 1))) (Num mn)) (range_of (Num mn) (Num mx))))
            (js_sub H (js_mul pad (Num 2)))) = Num b" "2 \<le> b" "b \<le> 22"
    using y_in_box [of mn "xs ! (n - 1)" mx] by auto
  have lx: "js_add pad (js_sub W (js_mul pad (Num 2))) = Num 78"
    by (simp add: inner_width pad_plus)
  have m_ok: "in_box (js_add pad (js_sub W (js_mul pad (Num 2))),
         js_add pad
           (js_mul (js_sub (Num 1)
              (js_div (js_sub (Num (xs ! (n - 1))) (Num mn)) (range_of (Num mn) (Num mx))))
              (js_sub H (js_mul pad (Num 2)))))"
    unfolding lx b(1) using b(2,3) by simp
  have "0 < (if mx = mn then 1 else mx - mn)" using le by auto
  with rng spark pts_ok m_ok len show ?thesis
    unfolding vs_def [symmetric] mn mx
    by (auto simp: mn_def [symmetric] mx_def [symmetric] vs_def n_def)
qed

theorem Sparkline_points_in_box_witness:
  "2 \<le> length [1, 3, 2 :: real]
   \<and> Max (set [1, 3, 2 :: real]) - Min (set [1, 3, 2]) < huge
   \<and> Sparkline [Num 5, Num 5, Num 5] False
     = Chart [(Num 2, Num 22), (Num 40, Num 22), (Num 78, Num 22)] (Num 78, Num 22)
         ''#34d399'' False
   \<and> Sparkline [Num 1, Num 3, Num 2] True
     = Chart [(Num 2, Num 22), (Num 40, Num 2), (Num 78, Num 12)] (Num 78, Num 12)
         ''#f87171'' True
   \<and> (\<exists>r ps m c.
           range_of (Math_min (map Num [5, 5, 5])) (Math_max (map Num [5, 5, 5])) = Num r
         \<and> 0 < r \<and> (Max (set [5, 5, 5 :: real]) = Min (set [5, 5, 5]) \<longrightarrow> r = 1)
         \<and> Sparkline (map Num [5, 5, 5]) False = Chart ps m c False
         \<and> length ps = length [5, 5, 5 :: real]
         \<and> (\<forall>p \<in> set ps. in_box p) \<and> in_box m)"
proof -
  have a: "Sparkline [Num 5, Num 5, Num 5] False
      = Chart [(Num 2, Num 22), (Num 40, Num 22), (Num 78, Num 22)] (Num 78, Num 22)
          ''#34d399'' False"
    by (simp add: Sparkline_def Math_min_def Math_max_def range_of_def js_sub_def point_def
        pad_def W_def H_def upt_rec fl_small Let_def)
  have b: "Sparkline [Num 1, Num 3, Num 2] True
      = Chart [(Num 2, Num 22), (Num 40, Num 2), (Num 78, Num 12)] (Num 78, Num 12)
          ''#f87171'' True"
    by (simp add: Sparkline_def Math_min_def Math_max_def range_of_def js_sub_def point_def
        pad_def W_def H_def upt_rec fl_small Let_def)
  have c: "2 \<le> length [5, 5, 5 :: real]" "2 \<le> length [1, 3, 2 :: real]"
    by simp_all
  have d: "Max (set [5, 5, 5 :: real]) - Min (set [5, 5, 5]) < huge"
    "Max (set [1, 3, 2 :: real]) - Min (set [1, 3, 2]) < huge"
    using huge_big by simp_all
  show ?thesis
    using a b c(2) d(2) Sparkline_points_in_box [OF c(1) d(1), of False] by simp
qed

section \<open>Properties of the telemetry feed, the probe and the roster\<close>

lemma esqlFeed_tracked_aux:
  "\<forall>e \<in> set feed. tracked (label e) \<Longrightarrow> \<forall>e \<in> set (feed_step API ev feed). tracked (label e)"
  by (cases ev) (auto simp: on_request_def on_response_def Let_def dest: in_set_takeD split: list.splits)

lemma fold_feed_tracked:
  "\<forall>e \<in> set feed. tracked (label e) \<Longrightarrow> \<forall>e \<in> set (fold (feed_step API) evs feed). tracked (label e)"
proof (induction evs arbitrary: feed)
  case Nil
  then show ?case by simp
next
  case (Cons ev evs)
  from Cons.prems have "\<forall>e \<in> set (feed_step API ev feed). tracked (label e)"
    by (rule esqlFeed_tracked_aux)
  then show ?case using Cons.IH by simp
qed

lemma feed_step_length: "length feed \<le> 6 \<Longrightarrow> length (feed_step API ev feed) \<le> 6"
  by (cases ev) (auto simp: on_request_def on_response_def Let_def split: list.splits)

lemma fold_feed_length:
  "length feed \<le> 6 \<Longrightarrow> length (fold (feed_step API) evs feed) \<le> 6"
  by (induction evs arbitrary: feed) (simp_all add: feed_step_length del: feed_step.simps)

lemma fold_logQuery_length:
  "length lg \<le> 10 \<Longrightarrow> length (fold (\<lambda>(q, r, m, now). logQuery q r m now) qs lg) \<le> 10"
  by (induction qs arbitrary: lg) (auto simp: logQuery_def)

text \<open>
  C4. A probe that fails with a previous snapshot leaves that snapshot with only
  \<open>es_connected\<close> set to false: document count, feature flag, latency and time of the
  last check are kept. With no previous snapshot the status stays \<open>null\<close>.
\<close>

theorem checkStatus_failed_probe:
  assumes "failed_probe reply"
  shows "checkStatus ta tb now reply None = None
       \<and> checkStatus ta tb now reply (Some v) = Some (v\<lparr> es_connected := False \<rparr>)
       \<and> (\<exists>v'. checkStatus ta tb now reply (Some v) = Some v'
               \<and> \<not> es_connected v' \<and> doc_count v' = doc_count v
               \<and> mcp_enabled v' = mcp_enabled v \<and> latency_ms v' = latency_ms v
               \<and> last_checked v' = last_checked v)"
  using assms by (cases reply) (simp_all add: checkStatus_def probe_failed_def)

theorem checkStatus_failed_probe_witness:
  "failed_probe Rejected
   \<and> checkStatus 100 140 ''10:00:05'' Rejected None = None
   \<and> checkStatus 100 140 ''10:00:05'' Rejected
        (Some \<lparr> es_connected = True, doc_count = JNum 120, mcp_enabled = JBool True,
                latency_ms = 35, last_checked = ''10:00:00'' \<rparr>)
      = Some \<lparr> es_connected = False, doc_count = JNum 120, mcp_enabled = JBool True,
               latency_ms = 35, last_checked = ''10:00:00'' \<rparr>"
proof -
  have h: "failed_probe Rejected" by simp
  show ?thesis
    using h checkStatus_failed_probe [OF h, of 100 140 "''10:00:05''"
        "\<lparr> es_connected = True, doc_count = JNum 120, mcp_enabled = JBool True,
           latency_ms = 35, last_checked = ''10:00:00'' \<rparr>"]
    by simp
qed

text \<open>
  C5. After any sequence of intercepted requests and responses the header feed has at most
  6 entries, and after any sequence of logged queries the dashboard log has at most 10. A
  new entry goes to the head and the entries kept behind it are the most recent 5 (or 9) of
  the previous ones, in their order: the oldest are evicted.
\<close>

theorem feeds_bounded:
  "length (esqlFeed_after API evs) \<le> 6
   \<and> length (fold (\<lambda>(q, r, m, now). logQuery q r m now) qs []) \<le> 10
   \<and> (tracked (endpoint_of API url) \<longrightarrow>
        on_request API url prev
          = \<lparr> label = endpoint_of API url, ms = JNum 0, rows = JNum 0 \<rparr> # take 5 prev)
   \<and> logQuery q r m now lg
        = \<lparr> log_query = q, log_rows = r, log_ms = m, log_time = now \<rparr> # take 9 lg"
proof -
  have "length (esqlFeed_after API evs) \<le> 6"
    unfolding esqlFeed_after_def by (rule fold_feed_length) simp
  moreover have "length (fold (\<lambda>(q, r, m, now). logQuery q r m now) qs []) \<le> 10"
    using fold_logQuery_length [of "[]" qs] by simp
  ultimately show ?thesis
    by (simp add: on_request_def logQuery_def Let_def)
qed


theorem feeds_bounded_witness:
  "tracked (endpoint_of ''http://localhost:8000''
      (Some ''http://localhost:8000/api/alerts/feed?patient_id=PAT001''))
   \<and> on_request ''http://localhost:8000''
       (Some ''http://localhost:8000/api/alerts/feed?patient_id=PAT001'')
       (map (\<lambda>l. \<lparr> label = l, ms = JNum 3, rows = JNum 1 \<rparr>)
          [''/api/a'', ''/api/b'', ''/api/c'', ''/api/d'', ''/api/e'', ''/api/f''])
     = \<lparr> label = ''/api/alerts/feed'', ms = JNum 0, rows = JNum 0 \<rparr>
       # map (\<lambda>l. \<lparr> label = l, ms = JNum 3, rows = JNum 1 \<rparr>)
           [''/api/a'', ''/api/b'', ''/api/c'', ''/api/d'', ''/api/e'']"
proof -
  have e: "endpoint_of ''http://localhost:8000''
      (Some ''http://localhost:8000/api/alerts/feed?patient_id=PAT001'') = ''/api/alerts/feed''"
    by (simp add: endpoint_of_def)
  have t: "tracked ''/api/alerts/feed''"
    by (simp add: tracked_def)
  show ?thesis
    using t feeds_bounded [of "''http://localhost:8000''" "[]" "[]"
        "Some ''http://localhost:8000/api/alerts/feed?patient_id=PAT001''"
        "map (\<lambda>l. \<lparr> label = l, ms = JNum 3, rows = JNum 1 \<rparr>)
          [''/api/a'', ''/api/b'', ''/api/c'', ''/api/d'', ''/api/e'', ''/api/f'']"]
    by (simp add: e)
qed

text \<open>
  C6. For a response arriving at a feed the interceptors have built: if the feed is not
  empty and its head's label is the response's path (API prefix and query string
  stripped), the head alone is replaced by that label with the extracted latency and
  cardinality; otherwise the feed is unchanged. On any feed at all the same holds for
  the paths the tap tracks, and the feed is unchanged for any other path.
\<close>

theorem on_response_head_only:
  "on_response API url data (esqlFeed_after API evs) =
     (if esqlFeed_after API evs \<noteq> []
         \<and> label (hd (esqlFeed_after API evs)) = endpoint_of API url
      then \<lparr> label = endpoint_of API url, ms = ms_of data, rows = rows_of data \<rparr>
             # tl (esqlFeed_after API evs)
      else esqlFeed_after API evs)
   \<and> on_response API url data prev =
     (if tracked (endpoint_of API url) \<and> prev \<noteq> []
         \<and> label (hd prev) = endpoint_of API url
      then \<lparr> label = endpoint_of API url, ms = ms_of data, rows = rows_of data \<rparr> # tl prev
      else prev)"
proof -
  have any: "on_response API url data feed =
     (if tracked (endpoint_of API url) \<and> feed \<noteq> []
         \<and> label (hd feed) = endpoint_of API url
      then \<lparr> label = endpoint_of API url, ms = ms_of data, rows = rows_of data \<rparr> # tl feed
      else feed)" for feed
    by (cases feed) (simp_all add: on_response_def Let_def)
  have "\<forall>e \<in> set (esqlFeed_after API evs). tracked (label e)"
    unfolding esqlFeed_after_def by (rule fold_feed_tracked) simp
  then have "tracked (label (hd (esqlFeed_after API evs)))" if "esqlFeed_after API evs \<noteq> []"
    using that by simp
  then show ?thesis
    using any [of "esqlFeed_after API evs"] any [of prev] by auto
qed

theorem on_response_head_only_witness:
  "esqlFeed_after ''http://localhost:8000''
       [Request (Some ''http://localhost:8000/api/patients''),
        Request (Some ''http://localhost:8000/api/esql/run'')]
     = [\<lparr> label = ''/api/esql/run'', ms = JNum 0, rows = JNum 0 \<rparr>,
        \<lparr> label = ''/api/patients'', ms = JNum 0, rows = JNum 0 \<rparr>]
   \<and> on_response ''http://localhost:8000'' (Some ''http://localhost:8000/api/esql/run'')
       (JObj [(''row_count'', JNum 7), (''ms'', JNum 12)])
       (esqlFeed_after ''http://localhost:8000''
          [Request (Some ''http://localhost:8000/api/patients''),
           Request (Some ''http://localhost:8000/api/esql/run'')])
     = [\<lparr> label = ''/api/esql/run'', ms = JNum 12, rows = JNum 7 \<rparr>,
        \<lparr> label = ''/api/patients'', ms = JNum 0, rows = JNum 0 \<rparr>]
   \<and> on_response ''http://localhost:8000'' (Some ''http://localhost:8000/api/patients?x=1'')
       (JObj [(''total'', JNum 3)])
       (esqlFeed_after ''http://localhost:8000''
          [Request (Some ''http://localhost:8000/api/patients''),
           Request (Some ''http://localhost:8000/api/esql/run'')])
     = [\<lparr> label = ''/api/esql/run'', ms = JNum 0, rows = JNum 0 \<rparr>,
        \<lparr> label = ''/api/patients'', ms = JNum 0, rows = JNum 0 \<rparr>]"
proof -
  have e1: "endpoint_of ''http://localhost:8000''
      (Some ''http://localhost:8000/api/patients'') = ''/api/patients''"
    by (simp add: endpoint_of_def)
  have e2: "endpoint_of ''http://localhost:8000''
      (Some ''http://localhost:8000/api/esql/run'') = ''/api/esql/run''"
    by (simp add: endpoint_of_def)
  have e3: "endpoint_of ''http://localhost:8000''
      (Some ''http://localhost:8000/api/patients?x=1'') = ''/api/patients''"
    by (simp add: endpoint_of_def)
  have t: "tracked ''/api/patients''" "tracked ''/api/esql/run''"
    by (simp_all add: tracked_def)
  have f: "esqlFeed_after ''http://localhost:8000''
       [Request (Some ''http://localhost:8000/api/patients''),
        Request (Some ''http://localhost:8000/api/esql/run'')]
     = [\<lparr> label = ''/api/esql/run'', ms = JNum 0, rows = JNum 0 \<rparr>,
        \<lparr> label = ''/api/patients'', ms = JNum 0, rows = JNum 0 \<rparr>]"
    by (simp add: esqlFeed_after_def on_request_def e1 e2 t)
  have m: "ms_of (JObj [(''row_count'', JNum 7), (''ms'', JNum 12)]) = JNum 12"
    "rows_of (JObj [(''row_count'', JNum 7), (''ms'', JNum 12)]) = JNum 7"
    by (simp_all add: ms_of_def rows_of_def coalesce_def opt_get_def nullish_def)
  show ?thesis
    using on_response_head_only [of "''http://localhost:8000''"
        "Some ''http://localhost:8000/api/esql/run''"
        "JObj [(''row_count'', JNum 7), (''ms'', JNum 12)]"
        "[Request (Some ''http://localhost:8000/api/patients''),
          Request (Some ''http://localhost:8000/api/esql/run'')]" "[]"]
      on_response_head_only [of "''http://localhost:8000''"
        "Some ''http://localhost:8000/api/patients?x=1''"
        "JObj [(''total'', JNum 3)]"
        "[Request (Some ''http://localhost:8000/api/patients''),
          Request (Some ''http://localhost:8000/api/esql/run'')]" "[]"]
    by (simp add: f e2 e3 m)
qed

text \<open>
  C2, at the roster of one patient \<open>PAT001\<close> with 2 critical panels and the stale active
  id \<open>PAT002\<close>: the load makes \<open>PAT001\<close> the active patient, but it looks the banner's
  patient up under the id it closed over and clears the banner. Only a load started
  with the new id raises the banner with the count 2.
\<close>

theorem loadPatients_failover_alert:
  "patientId (loadPatients ''PAT002''
       (Fulfilled (Some [\<lparr> r_patient_id = ''PAT001'', r_total_tests = Some 5,
           r_abnormal = Some 3, r_critical = Some 2,
           r_last_test = Some ''2024-03-01T00:00:00'', r_first_test = None \<rparr>]))
       \<lparr> patientId = ''PAT002'', patients = [], patientsLoading = True,
          criticalAlert = None \<rparr>) = ''PAT001''
   \<and> criticalAlert (loadPatients ''PAT002''
       (Fulfilled (Some [\<lparr> r_patient_id = ''PAT001'', r_total_tests = Some 5,
           r_abnormal = Some 3, r_critical = Some 2,
           r_last_test = Some ''2024-03-01T00:00:00'', r_first_test = None \<rparr>]))
       \<lparr> patientId = ''PAT002'', patients = [], patientsLoading = True,
          criticalAlert = None \<rparr>) = None
   \<and> criticalAlert (loadPatients ''PAT001''
       (Fulfilled (Some [\<lparr> r_patient_id = ''PAT001'', r_total_tests = Some 5,
           r_abnormal = Some 3, r_critical = Some 2,
           r_last_test = Some ''2024-03-01T00:00:00'', r_first_test = None \<rparr>]))
       \<lparr> patientId = ''PAT001'', patients = [], patientsLoading = True,
          criticalAlert = None \<rparr>) = Some (CriticalPanels ''PAT001'' 2)"
  by (simp add: loadPatients_def to_patient_def Let_def)

text \<open>Every load that fails over to the first patient clears the banner.\<close>

lemma loadPatients_failover_clears:
  assumes "body = Some rs" "rs \<noteq> []" "pid \<notin> r_patient_id ` set rs"
  shows "patientId (loadPatients pid (Fulfilled body) st) = r_patient_id (hd rs)
       \<and> criticalAlert (loadPatients pid (Fulfilled body) st) = None"
proof -
  have "find (\<lambda>p. patient_id p = pid) (map to_patient rs) = None"
    using assms(3) by (auto simp: find_None_iff to_patient_def)
  then show ?thesis
    using assms(1,2) by (simp add: loadPatients_def Let_def hd_map to_patient_def)
qed


section \<open>Properties of the two cadences\<close>

lemma fast_run_balance:
  "fast_run evs s = Some s' \<Longrightarrow>
     roster_in_flight s' + count_list evs RosterSettled
       = roster_in_flight s + count_list evs Tick
   \<and> status_in_flight s' + count_list evs StatusSettled
       = status_in_flight s + count_list evs Tick"
proof (induction evs arbitrary: s)
  case Nil
  then show ?case by simp
next
  case (Cons e es)
  from Cons.prems obtain s1 where s1: "fast_step e s = Some s1" and rest: "fast_run es s1 = Some s'"
    by (auto split: option.splits)
  from Cons.IH [OF rest] s1 show ?case
    by (cases e) (auto split: if_splits)
qed

lemma countdown_expires:
  "1 \<le> seconds_left r \<Longrightarrow> n = nat (seconds_left r) \<Longrightarrow>
     slow_run (replicate n Second) r
       = Some (r\<lparr> seconds_left := 30, loads_in_flight := loads_in_flight r + 1 \<rparr>)"
proof (induction n arbitrary: r)
  case 0
  then show ?case by simp
next
  case (Suc n)
  show ?case
  proof (cases "seconds_left r \<le> 1")
    case True
    with Suc.prems have "n = 0" by simp
    with True show ?thesis by simp
  next
    case False
    let ?r = "r\<lparr> seconds_left := seconds_left r - 1 \<rparr>"
    have "1 \<le> seconds_left ?r" "n = nat (seconds_left ?r)"
      using False Suc.prems by simp_all
    from Suc.IH [OF this] False show ?thesis by simp
  qed
qed

text \<open>
  A tick of the 20-second interval that arrives while the requests of the mount are
  outstanding starts a second probe and a second roster load; a dashboard load that is
  outstanding for the 30 seconds of the countdown gets a second one beside it.
\<close>

theorem ticks_overlap_counterexample:
  "map_option roster_in_flight (fast_run [Tick] mounted) = Some 2
   \<and> map_option status_in_flight (fast_run [Tick] mounted) = Some 2
   \<and> map_option loads_in_flight (slow_run (replicate 30 Second) dashboard_mounted) = Some 2"
proof -
  have "slow_run (replicate (nat (seconds_left dashboard_mounted)) Second) dashboard_mounted
      = Some (dashboard_mounted\<lparr> seconds_left := 30,
                loads_in_flight := loads_in_flight dashboard_mounted + 1 \<rparr>)"
    by (rule countdown_expires) (simp_all add: dashboard_mounted_def)
  then show ?thesis
    by (simp add: mounted_def dashboard_mounted_def)
qed

text \<open>
  C3, as the code has it. No tick is dropped: over every trace of the 20-second cadence
  the requests in flight are those in flight before plus one per tick minus those settled,
  for the probe and for the roster; and from a countdown of \<open>c \<ge> 1\<close> seconds, \<open>c\<close> ticks
  of the dashboard's timer with no load settling in between start a further load beside
  those in flight and reset the countdown to 30.
\<close>

theorem ticks_never_dropped:
  "(fast_run evs s = Some s' \<longrightarrow>
      roster_in_flight s' + count_list evs RosterSettled
        = roster_in_flight s + count_list evs Tick
    \<and> status_in_flight s' + count_list evs StatusSettled
        = status_in_flight s + count_list evs Tick)
   \<and> (1 \<le> seconds_left r \<longrightarrow>
      slow_run (replicate (nat (seconds_left r)) Second) r
        = Some (r\<lparr> seconds_left := 30, loads_in_flight := loads_in_flight r + 1 \<rparr>))"
  using fast_run_balance [of evs s s'] countdown_expires [of r "nat (seconds_left r)"]
  by blast

theorem ticks_never_dropped_witness:
  "fast_run [Tick, RosterSettled, Tick, Tick] mounted
     = Some \<lparr> status_in_flight = 4, roster_in_flight = 3 \<rparr>
   \<and> slow_run (replicate 3 Second) \<lparr> seconds_left = 3, loads_in_flight = 1 \<rparr>
     = Some \<lparr> seconds_left = 30, loads_in_flight = 2 \<rparr>"
proof -
  have a: "fast_run [Tick, RosterSettled, Tick, Tick] mounted
     = Some \<lparr> status_in_flight = 4, roster_in_flight = 3 \<rparr>"
    by (simp add: mounted_def)
  have b: "(1::int) \<le> seconds_left \<lparr> seconds_left = 3, loads_in_flight = 1 \<rparr>"
    by simp
  show ?thesis
    using a b ticks_never_dropped [of "[Tick, RosterSettled, Tick, Tick]" mounted
        "\<lparr> status_in_flight = 4, roster_in_flight = 3 \<rparr>"
        "\<lparr> seconds_left = 3, loads_in_flight = 1 \<rparr>"]
    by (simp add: mounted_def)
qed


section \<open>Properties of the refresh cycle\<close>











section \<open>Properties of the console\<close>

lemma settle_not_running: "\<not> running (settle te r c)"
  by (cases r) (simp_all add: settle_def)

lemma console_step_inv:
  assumes "console_inv s" "console_step te e s = Some s'"
  shows "console_inv s'"
proof (cases e)
  case Submit
  with assms show ?thesis
    by (auto simp: console_inv_def submit_def run_def split: if_splits)
next
  case (Settle i r)
  with assms have "i < length (pending s)"
    by (simp split: if_splits)
  with assms(1) have "running (ui s)" "i = 0" "pending s = [posted s]"
    by (auto simp: console_inv_def split: if_splits)
  with assms(2) Settle show ?thesis
    by (auto simp: console_inv_def settle_not_running)
next
  case (Edit q)
  with assms show ?thesis by (auto simp: console_inv_def)
next
  case (Pick q)
  with assms show ?thesis by (auto simp: console_inv_def pick_def)
qed

lemma console_run_inv:
  "console_inv s \<Longrightarrow> console_run te evs s = Some s' \<Longrightarrow> console_inv s'"
proof (induction evs arbitrary: s)
  case Nil
  then show ?case by simp
next
  case (Cons e es)
  from Cons.prems(2) obtain s1 where s1: "console_step te e s = Some s1"
    and rest: "console_run te es s1 = Some s'"
    by (auto split: option.splits)
  from console_step_inv [OF Cons.prems(1) s1] rest show ?case
    by (rule Cons.IH)
qed

lemma opened_inv: "console_inv (opened q)"
  by (simp add: console_inv_def opened_def)

text \<open>
  C9. A submission while \<open>running\<close> posts nothing and leaves the console's state as it is.
  In every session of the console a pending post implies \<open>running\<close>, so at most one post
  is pending, and the post whose reply arrives is the latest one posted: no reply of an
  earlier submission is applied after a newer one was dispatched.
\<close>

theorem run_while_running_is_noop:
  "(running c \<longrightarrow> run c = (c, None))
   \<and> (console_run te evs (opened q) = Some s \<longrightarrow>
        (pending s \<noteq> [] \<longrightarrow> running (ui s))
      \<and> (running (ui s) \<longrightarrow> submit s = s)
      \<and> length (pending s) \<le> 1
      \<and> (\<forall>i < length (pending s). pending s ! i = posted s))"
proof -
  have "console_inv s" if "console_run te evs (opened q) = Some s"
    using opened_inv that by (rule console_run_inv)
  then show ?thesis
    by (auto simp: console_inv_def run_def submit_def split: if_splits)
qed

theorem run_while_running_is_noop_witness:
  "running \<lparr> query = [0x52, 0x4F, 0x57, 0x20, 0x31], result = JNull, running = True,
             error = JNull, rawOpen = False \<rparr>
   \<and> run \<lparr> query = [0x52, 0x4F, 0x57, 0x20, 0x31], result = JNull, running = True,
           error = JNull, rawOpen = False \<rparr>
     = (\<lparr> query = [0x52, 0x4F, 0x57, 0x20, 0x31], result = JNull, running = True,
          error = JNull, rawOpen = False \<rparr>, None)
   \<and> console_run JNull [Submit, Edit [0x52, 0x4F, 0x57, 0x20, 0x32], Submit]
       (opened [0x52, 0x4F, 0x57, 0x20, 0x31])
     = Some \<lparr> ui = \<lparr> query = [0x52, 0x4F, 0x57, 0x20, 0x32], result = JNull,
                     running = True, error = JNull, rawOpen = False \<rparr>,
              pending = [1], posted = 1 \<rparr>"
proof -
  have a: "console_run JNull [Submit, Edit [0x52, 0x4F, 0x57, 0x20, 0x32], Submit]
       (opened [0x52, 0x4F, 0x57, 0x20, 0x31])
     = Some \<lparr> ui = \<lparr> query = [0x52, 0x4F, 0x57, 0x20, 0x32], result = JNull,
                     running = True, error = JNull, rawOpen = False \<rparr>,
              pending = [1], posted = 1 \<rparr>"
    by (simp add: opened_def submit_def run_def trim_def white_def)
  show ?thesis
    using a run_while_running_is_noop [of
        "\<lparr> query = [0x52, 0x4F, 0x57, 0x20, 0x31], result = JNull, running = True,
           error = JNull, rawOpen = False \<rparr>" JNull
        "[Submit, Edit [0x52, 0x4F, 0x57, 0x20, 0x32], Submit]"
        "[0x52, 0x4F, 0x57, 0x20, 0x31]"
        "\<lparr> ui = \<lparr> query = [0x52, 0x4F, 0x57, 0x20, 0x32], result = JNull,
                     running = True, error = JNull, rawOpen = False \<rparr>,
              pending = [1], posted = 1 \<rparr>"]
    by simp
qed

text \<open>A query of white space only, a no-break space included, is not posted.\<close>

lemma run_blank_query:
  "run \<lparr> query = [0x20, 0xA0, 0x0A, 0xFEFF, 0x2003], result = JNull, running = False,
          error = JNull, rawOpen = False \<rparr>
     = (\<lparr> query = [0x20, 0xA0, 0x0A, 0xFEFF, 0x2003], result = JNull, running = False,
          error = JNull, rawOpen = False \<rparr>, None)"
  by (simp add: run_def trim_def white_def)

end
